theory Spec2Isabelle
  imports Complex_Main
begin

section \<open>Pull-to-refresh gesture recognizer (PullToRefresh.vue)\<close>

text \<open>
  A shallow embedding of the script block of
  \<^verbatim>\<open>src/components/common/PullToRefresh.vue\<close>.

  Conventions of the embedding:
  \<^item> JavaScript numbers (coordinates, distances, the threshold) are exact rationals;
    \<^verbatim>\<open>Date.now()\<close> and timer delays are integers (milliseconds).
  \<^item> The reactive refs and the module-level \<^verbatim>\<open>let\<close> variables are the fields of one
    record, passed through every handler.
  \<^item> What a handler reads from its surroundings (\<^verbatim>\<open>window.scrollY\<close>,
    \<^verbatim>\<open>Date.now()\<close>, the props, the container element) is the record \<open>env\<close>.
  \<^item> \<^verbatim>\<open>setTimeout\<close> appends a pending timer (identifier, due time, callback) to a
    list; \<^verbatim>\<open>clearTimeout\<close> removes it; a timer can fire once it is due.
  \<^item> \<^verbatim>\<open>await props.onRefresh()\<close> counts the invocation and records which
    \<^verbatim>\<open>finally\<close> block waits for the settlement of the call.
  \<^item> A \<^verbatim>\<open>TypeError\<close> raised by a handler is the left injection of a sum.
\<close>

subsection \<open>Data\<close>

text \<open>One entry of the \<^verbatim>\<open>parentElement\<close> chain that \<^verbatim>\<open>isScrollable\<close> walks.\<close>

record node =
  nid :: nat
  nodeType :: nat
  overflowY :: string
  scrollTop :: rat

text \<open>The three callbacks the component passes to \<^verbatim>\<open>setTimeout\<close>.\<close>

datatype timer_action =
    WatcherReset    \<comment> \<open>lines 33-35: \<^verbatim>\<open>pullDistance.value = 0\<close>\<close>
  | SettleReset     \<comment> \<open>lines 109-112 and 132-135: \<^verbatim>\<open>isRefreshing.value = false; pullDistance.value = 0\<close>\<close>
  | Inactivity      \<comment> \<open>lines 186-196\<close>

text \<open>Which \<^verbatim>\<open>finally\<close> block waits for a pending \<^verbatim>\<open>onRefresh()\<close> call.\<close>

datatype origin = FromHandleEnd | FromExecuteRefresh

datatype error = TypeError

record env =
  scrollY :: rat
  now :: int
  threshold :: rat
  isLoading :: bool
  containerRef :: nat

record state =
  pullDistance :: rat
  isRefreshing :: bool
  isPulling :: bool
  startY :: rat
  isDragging :: bool
  lastWheelTime :: int
  accumulatedDelta :: rat
  lastWheelEventTime :: int
  inactivityTimer :: "nat option"
  timers :: "(nat \<times> int \<times> timer_action) list"
  nextTimerId :: nat
  pendingRefreshes :: "origin list"
  refreshCalls :: nat
  preventDefaultCalls :: nat

text \<open>The state right after \<^verbatim>\<open>setup\<close> (lines 21-26 and 158-162).\<close>

definition initial :: state where
  "initial = \<lparr> pullDistance = 0, isRefreshing = False, isPulling = False, startY = 0,
     isDragging = False, lastWheelTime = 0, accumulatedDelta = 0, lastWheelEventTime = 0,
     inactivityTimer = None, timers = [], nextTimerId = 1, pendingRefreshes = [],
     refreshCalls = 0, preventDefaultCalls = 0 \<rparr>"

text \<open>
  The four states of the specification, read off the flags of the code: Refreshing when
  \<^verbatim>\<open>isRefreshing\<close>, else Pulling when \<^verbatim>\<open>isPulling\<close>, else Dragging when
  \<^verbatim>\<open>isDragging\<close>, else Idle.
\<close>

datatype gesture = Idle | Dragging | Pulling | Refreshing

definition gestureState :: "state \<Rightarrow> gesture" where
  "gestureState s =
     (if isRefreshing s then Refreshing
      else if isPulling s then Pulling
      else if isDragging s then Dragging
      else Idle)"

subsection \<open>Timers and the refresh callback\<close>

definition setTimeout :: "env \<Rightarrow> timer_action \<Rightarrow> int \<Rightarrow> state \<Rightarrow> state" where
  "setTimeout e a delay s =
     s\<lparr> timers := timers s @ [(nextTimerId s, now e + delay, a)],
        nextTimerId := Suc (nextTimerId s) \<rparr>"

definition clearTimeout :: "nat \<Rightarrow> state \<Rightarrow> state" where
  "clearTimeout i s = s\<lparr> timers := filter (\<lambda>t. fst t \<noteq> i) (timers s) \<rparr>"

definition preventDefault :: "state \<Rightarrow> state" where
  "preventDefault s = s\<lparr> preventDefaultCalls := Suc (preventDefaultCalls s) \<rparr>"

text \<open>\<^verbatim>\<open>props.onRefresh()\<close> up to the \<^verbatim>\<open>await\<close>.\<close>

definition onRefresh :: "origin \<Rightarrow> state \<Rightarrow> state" where
  "onRefresh k s =
     s\<lparr> refreshCalls := Suc (refreshCalls s),
        pendingRefreshes := pendingRefreshes s @ [k] \<rparr>"

subsection \<open>Scroll-context probe (lines 40-58)\<close>

text \<open>
  The argument list is the element followed by its \<^verbatim>\<open>parentElement\<close> chain; the empty
  list is \<^verbatim>\<open>null\<close>.
\<close>

fun isScrollable :: "nat \<Rightarrow> node list \<Rightarrow> bool" where
  "isScrollable c [] = False"
| "isScrollable c (current # parents) =
     (if nid current = c then False
      else if nodeType current \<noteq> 1 then isScrollable c parents
      else if overflowY current \<in> set [''auto'', ''scroll''] \<and> scrollTop current > 0 then True
      else isScrollable c parents)"

subsection \<open>The state machine (lines 29-37 and 61-138)\<close>

definition watchIsLoading :: "env \<Rightarrow> bool \<Rightarrow> state \<Rightarrow> state" where
  "watchIsLoading e newValue s =
     (let s1 = s\<lparr> isRefreshing := newValue \<rparr>
      in if \<not> newValue then setTimeout e WatcherReset 500 s1 else s1)"

definition handleStart :: "env \<Rightarrow> rat \<Rightarrow> node list \<Rightarrow> state \<Rightarrow> state" where
  "handleStart e y target s =
     (if scrollY e \<le> 5 \<and> \<not> isRefreshing s then
        (if isScrollable (containerRef e) target then s
         else s\<lparr> startY := y, isDragging := True \<rparr>)
      else s)"

definition handleMove :: "env \<Rightarrow> rat \<Rightarrow> bool \<Rightarrow> state \<Rightarrow> state" where
  "handleMove e y cancelable s =
     (if \<not> isDragging s then s
      else if isRefreshing s then s
      else
        (let diff = y - startY s in
         if diff > 0 \<and> scrollY e \<le> 5 then
           (let s1 = (if cancelable then preventDefault s else s)
            in s1\<lparr> isPulling := True, pullDistance := diff * 0.4 \<rparr>)
         else
           (let s1 = s\<lparr> isPulling := False, pullDistance := 0 \<rparr>
            in if diff < 0 then s1\<lparr> isDragging := False \<rparr> else s1)))"

text \<open>\<^verbatim>\<open>handleEnd\<close> up to its \<^verbatim>\<open>await\<close>.\<close>

definition handleEnd :: "env \<Rightarrow> state \<Rightarrow> state" where
  "handleEnd e s =
     (let s1 = s\<lparr> isDragging := False \<rparr> in
      if \<not> isPulling s1 then s1
      else if pullDistance s1 \<ge> threshold e then
        onRefresh FromHandleEnd
          (s1\<lparr> isPulling := False, isRefreshing := True, pullDistance := threshold e \<rparr>)
      else s1\<lparr> isPulling := False, pullDistance := 0 \<rparr>)"

text \<open>\<^verbatim>\<open>executeRefresh\<close> up to its \<^verbatim>\<open>await\<close>.\<close>

definition executeRefresh :: "env \<Rightarrow> state \<Rightarrow> state" where
  "executeRefresh e s =
     onRefresh FromExecuteRefresh
       (s\<lparr> isPulling := False, isRefreshing := True, pullDistance := threshold e \<rparr>)"

text \<open>
  The \<^verbatim>\<open>finally\<close> blocks (lines 108-113 and 129-137), run when the awaited call settles,
  by success or by failure.
\<close>

fun finallyBlock :: "env \<Rightarrow> origin \<Rightarrow> state \<Rightarrow> state" where
  "finallyBlock e FromHandleEnd s = setTimeout e SettleReset 500 s"
| "finallyBlock e FromExecuteRefresh s =
     (if \<not> isLoading e then setTimeout e SettleReset 500 s else s)"

text \<open>Settlement of the \<open>i\<close>-th pending call; \<open>None\<close> when there is no such call.\<close>

definition settle :: "env \<Rightarrow> nat \<Rightarrow> state \<Rightarrow> state option" where
  "settle e i s =
     (if i < length (pendingRefreshes s) then
        Some (finallyBlock e (pendingRefreshes s ! i)
               (s\<lparr> pendingRefreshes := take i (pendingRefreshes s) @ drop (Suc i) (pendingRefreshes s) \<rparr>))
      else None)"

subsection \<open>Timer callbacks\<close>

fun timerCallback :: "env \<Rightarrow> timer_action \<Rightarrow> state \<Rightarrow> state" where
  "timerCallback e WatcherReset s = s\<lparr> pullDistance := 0 \<rparr>"
| "timerCallback e SettleReset s = s\<lparr> isRefreshing := False, pullDistance := 0 \<rparr>"
| "timerCallback e Inactivity s =
     (let s1 = (if pullDistance s \<ge> threshold e then executeRefresh e s
                else s\<lparr> isPulling := False, pullDistance := 0 \<rparr>)
      in s1\<lparr> accumulatedDelta := 0 \<rparr>)"

text \<open>
  A pending timer fires no earlier than its due time and is then gone; \<open>None\<close> when no
  timer of that identifier is pending or it is not due yet.
\<close>

definition fireTimer :: "env \<Rightarrow> nat \<Rightarrow> state \<Rightarrow> state option" where
  "fireTimer e i s =
     (case find (\<lambda>t. fst t = i) (timers s) of
        None \<Rightarrow> None
      | Some (_, due, a) \<Rightarrow>
          if now e < due then None
          else Some (timerCallback e a (clearTimeout i s)))"

subsection \<open>Input adapters (lines 141-247)\<close>

definition handleTouchStart :: "env \<Rightarrow> rat list \<Rightarrow> node list \<Rightarrow> state \<Rightarrow> error + state" where
  "handleTouchStart e touches target s =
     (case touches of
        [] \<Rightarrow> Inl TypeError
      | clientY # _ \<Rightarrow> Inr (handleStart e clientY target s))"

definition handleTouchMove :: "env \<Rightarrow> rat list \<Rightarrow> bool \<Rightarrow> state \<Rightarrow> error + state" where
  "handleTouchMove e touches cancelable s =
     (case touches of
        [] \<Rightarrow> Inl TypeError
      | clientY # _ \<Rightarrow> Inr (handleMove e clientY cancelable s))"

definition handleTouchEnd :: "env \<Rightarrow> state \<Rightarrow> error + state" where
  "handleTouchEnd e s = Inr (handleEnd e s)"

definition handleMouseDown :: "env \<Rightarrow> rat \<Rightarrow> node list \<Rightarrow> state \<Rightarrow> state" where
  "handleMouseDown e clientY target s = handleStart e clientY target s"

definition handleMouseMove :: "env \<Rightarrow> rat \<Rightarrow> bool \<Rightarrow> state \<Rightarrow> state" where
  "handleMouseMove e clientY cancelable s =
     (if isDragging s then handleMove e clientY cancelable s else s)"

definition handleMouseUp :: "env \<Rightarrow> state \<Rightarrow> state" where
  "handleMouseUp e s = handleEnd e s"

definition handleMouseLeave :: "env \<Rightarrow> state \<Rightarrow> state" where
  "handleMouseLeave e s = handleEnd e s"

text \<open>Lines 177-196: record the event time and re-arm the inactivity timer.\<close>

definition rearmInactivity :: "env \<Rightarrow> state \<Rightarrow> state" where
  "rearmInactivity e s =
     (let s1 = s\<lparr> lastWheelEventTime := now e \<rparr>;
          s2 = (case inactivityTimer s1 of Some t \<Rightarrow> clearTimeout t s1 | None \<Rightarrow> s1)
      in (setTimeout e Inactivity 50 s2)\<lparr> inactivityTimer := Some (nextTimerId s2) \<rparr>)"

text \<open>Lines 202-232: an upward scroll (\<^verbatim>\<open>deltaY < 0\<close>).\<close>

definition wheelUp :: "env \<Rightarrow> rat \<Rightarrow> bool \<Rightarrow> state \<Rightarrow> state" where
  "wheelUp e deltaY cancelable s =
     (if now e - lastWheelTime s < 16 then
        s\<lparr> accumulatedDelta := accumulatedDelta s + (- deltaY * 0.3) \<rparr>
      else
        (let s1 = s\<lparr> lastWheelTime := now e \<rparr>;
             s2 = (if pullDistance s1 > 0 \<and> cancelable then preventDefault s1 else s1);
             s3 = s2\<lparr> isPulling := True \<rparr>;
             newDistance = pullDistance s3 + accumulatedDelta s3 + (- deltaY * 0.3);
             s4 = s3\<lparr> accumulatedDelta := 0 \<rparr>;
             s5 = s4\<lparr> pullDistance := min newDistance (threshold e * 2) \<rparr>
         in if pullDistance s5 \<ge> threshold e \<and> - deltaY > 50 then
              executeRefresh e
                (case inactivityTimer s5 of Some t \<Rightarrow> clearTimeout t s5 | None \<Rightarrow> s5)
            else s5))"

text \<open>Lines 233-246: any other scroll.\<close>

definition wheelDown :: "env \<Rightarrow> rat \<Rightarrow> bool \<Rightarrow> state \<Rightarrow> state" where
  "wheelDown e deltaY cancelable s =
     (if pullDistance s > 0 then
        (let s1 = s\<lparr> pullDistance := max 0 (pullDistance s - deltaY * 0.5) \<rparr>;
             s2 = (if pullDistance s1 = 0 then s1\<lparr> isPulling := False \<rparr> else s1)
         in if cancelable \<and> isPulling s2 then preventDefault s2 else s2)
      else s)"

definition handleWheel :: "env \<Rightarrow> rat \<Rightarrow> bool \<Rightarrow> node list \<Rightarrow> state \<Rightarrow> state" where
  "handleWheel e deltaY cancelable target s =
     (if isRefreshing s then s
      else if scrollY e > 0 then s\<lparr> pullDistance := 0, isPulling := False \<rparr>
      else if isScrollable (containerRef e) target then s
      else
        (let s1 = rearmInactivity e s
         in if deltaY < 0 then wheelUp e deltaY cancelable s1
            else wheelDown e deltaY cancelable s1))"

subsection \<open>Events and traces\<close>

datatype event =
    TouchStart "rat list" "node list"
  | TouchMove "rat list" bool
  | TouchEnd
  | MouseDown rat "node list"
  | MouseMove rat bool
  | MouseUp
  | MouseLeave
  | Wheel rat bool "node list"
  | TimerFires nat
  | RefreshSettles nat
  | LoadingChanges bool

text \<open>
  One turn of the event loop. A timer or a settlement that is not possible in the state
  leaves it unchanged.
\<close>

fun step :: "env \<Rightarrow> event \<Rightarrow> state \<Rightarrow> error + state" where
  "step e (TouchStart touches target) s = handleTouchStart e touches target s"
| "step e (TouchMove touches cancelable) s = handleTouchMove e touches cancelable s"
| "step e TouchEnd s = handleTouchEnd e s"
| "step e (MouseDown y target) s = Inr (handleMouseDown e y target s)"
| "step e (MouseMove y cancelable) s = Inr (handleMouseMove e y cancelable s)"
| "step e MouseUp s = Inr (handleMouseUp e s)"
| "step e MouseLeave s = Inr (handleMouseLeave e s)"
| "step e (Wheel deltaY cancelable target) s = Inr (handleWheel e deltaY cancelable target s)"
| "step e (TimerFires i) s = Inr (case fireTimer e i s of None \<Rightarrow> s | Some s' \<Rightarrow> s')"
| "step e (RefreshSettles i) s = Inr (case settle e i s of None \<Rightarrow> s | Some s' \<Rightarrow> s')"
| "step e (LoadingChanges b) s = Inr (watchIsLoading e b s)"

text \<open>A trace of events, each with the environment it is handled in; cut at the first error.\<close>

fun run :: "(env \<times> event) list \<Rightarrow> state \<Rightarrow> error + state" where
  "run [] s = Inr s"
| "run ((e, ev) # rest) s =
     (case step e ev s of Inl err \<Rightarrow> Inl err | Inr s' \<Rightarrow> run rest s')"


subsection \<open>Timer identifiers\<close>

text \<open>
  \<^verbatim>\<open>setTimeout\<close> never hands out the identifier of a timer that is still pending:
  every pending identifier is below the next one.
\<close>

definition timersFresh :: "state \<Rightarrow> bool" where
  "timersFresh s = list_all (\<lambda>t. fst t < nextTimerId s) (timers s)"

subsection \<open>Sample inputs\<close>

text \<open>The page at its top at time \<open>t\<close>, with the default threshold of 60.\<close>

definition envAt :: "int \<Rightarrow> env" where
  "envAt t = \<lparr> scrollY = 0, now = t, threshold = 60, isLoading = False, containerRef = 0 \<rparr>"


text \<open>The page scrolled 120 units away from its top.\<close>

definition envScrolledAt :: "int \<Rightarrow> env" where
  "envScrolledAt t = \<lparr> scrollY = 120, now = t, threshold = 60, isLoading = False, containerRef = 0 \<rparr>"

text \<open>An element inside the container with its own scroll position 12.\<close>

definition scrolledInner :: node where
  "scrolledInner = \<lparr> nid = 7, nodeType = 1, overflowY = ''auto'', scrollTop = 12 \<rparr>"

text \<open>A press at \<open>y = 100\<close> that has not moved yet.\<close>

definition pressed :: state where
  "pressed = initial\<lparr> startY := 100, isDragging := True \<rparr>"

text \<open>The same press dragged down to \<open>y = 300\<close>: distance \<open>200 * 0.4 = 80\<close>.\<close>

definition pulled :: state where
  "pulled = initial\<lparr> startY := 100, isDragging := True, isPulling := True, pullDistance := 80 \<rparr>"

text \<open>A wheel gesture that has reached distance 45 at time 1000, its inactivity timer pending.\<close>

definition wheeled :: state where
  "wheeled = initial\<lparr> pullDistance := 45, isPulling := True, lastWheelTime := 1000,
     lastWheelEventTime := 1000, inactivityTimer := Some 1,
     timers := [(1, 1050, Inactivity)], nextTimerId := 2 \<rparr>"

subsection \<open>Sequences of events of one kind\<close>

text \<open>A run of mouse-move events, each with its environment, coordinate and cancelable flag.\<close>

definition moves :: "(env \<times> rat \<times> bool) list \<Rightarrow> state \<Rightarrow> state" where
  "moves ms s = foldl (\<lambda>s (e, y, c). handleMouseMove e y c s) s ms"

text \<open>A run of wheel events, each with its environment, delta, cancelable flag and target.\<close>

definition wheels :: "(env \<times> rat \<times> bool \<times> node list) list \<Rightarrow> state \<Rightarrow> state" where
  "wheels ws s = foldl (\<lambda>s (e, deltaY, c, target). handleWheel e deltaY c target s) s ws"

text \<open>
  An upward wheel event that passes the guards of \<^verbatim>\<open>handleWheel\<close> (lines 165-175) and
  arrives less than 16 ms after the time \<open>t\<close> of the last processed one.
\<close>

definition throttledAfter :: "int \<Rightarrow> env \<times> rat \<times> bool \<times> node list \<Rightarrow> bool" where
  "throttledAfter t w =
     (case w of (e, deltaY, c, target) \<Rightarrow>
        scrollY e \<le> 0 \<and> \<not> isScrollable (containerRef e) target \<and> deltaY < 0 \<and> now e - t < 16)"

text \<open>The scaled deltas of a run of wheel events, summed.\<close>

definition scaledSum :: "(env \<times> rat \<times> bool \<times> node list) list \<Rightarrow> rat" where
  "scaledSum ws = sum_list (map (\<lambda>(e, deltaY, c, target). - deltaY * 0.3) ws)"

text \<open>During a drag the indicator shows nothing once the drag is cancelled.\<close>

definition dragSettled :: "state \<Rightarrow> bool" where
  "dragSettled s \<longleftrightarrow> isDragging s \<or> (\<not> isPulling s \<and> pullDistance s = 0)"


section \<open>Properties\<close>

subsection \<open>The sample states are reachable\<close>

lemma samples_reachable:
  "run [(envAt 1000, MouseDown 100 [])] initial = Inr pressed"
  "run [(envAt 1000, MouseDown 100 []), (envAt 1010, MouseMove 300 False)] initial = Inr pulled"
  "run [(envAt 1000, Wheel (-150) True [])] initial = Inr wheeled"
  by (simp_all add: envAt_def initial_def pressed_def pulled_def wheeled_def handleMouseDown_def
      handleStart_def handleMouseMove_def handleMove_def handleWheel_def rearmInactivity_def
      wheelUp_def setTimeout_def Let_def)

subsection \<open>The scroll-context probe\<close>

text \<open>
  The probe answers yes exactly when an element node strictly below the container, on the
  path from the target upwards, scrolls vertically and is not at its own top.
\<close>

lemma isScrollable_iff:
  "isScrollable c chain \<longleftrightarrow>
     (\<exists>n \<in> set (takeWhile (\<lambda>n. nid n \<noteq> c) chain).
        nodeType n = 1 \<and> (overflowY n = ''auto'' \<or> overflowY n = ''scroll'') \<and> scrollTop n > 0)"
  by (induction chain) auto

subsection \<open>C3: a release outside the Pulling state\<close>




subsection \<open>C4: when a press is accepted\<close>

text \<open>
  C4 says that \<^verbatim>\<open>onStart\<close> is accepted only in the Idle state and changes nothing
  otherwise. The guard of the code is \<^verbatim>\<open>!isRefreshing.value\<close> (line 63): a second press
  during a drag is accepted and overwrites \<^verbatim>\<open>startY\<close>.
\<close>

theorem handleStart_counterexample:
  "gestureState pressed \<noteq> Idle
   \<and> scrollY (envAt 1000) \<le> 5 \<and> \<not> isScrollable (containerRef (envAt 1000)) []
   \<and> handleStart (envAt 1000) 250 [] pressed \<noteq> pressed
   \<and> startY (handleStart (envAt 1000) 250 [] pressed) = 250"
  by (simp add: pressed_def initial_def handleStart_def gestureState_def envAt_def)

text \<open>
  C4, amended: \<^verbatim>\<open>onStart(y, target)\<close> is accepted if and only if the state is not
  Refreshing, the page scroll offset is at most 5 and the probe finds no scrolled nested
  region between the target and the container; on acceptance it records \<open>y\<close> as the start
  coordinate and sets the Dragging flag; in every other case it changes no state.
\<close>

theorem handleStart_accepts:
  "handleStart e y target s =
     (if \<not> isRefreshing s \<and> scrollY e \<le> 5 \<and> \<not> isScrollable (containerRef e) target
      then s\<lparr> startY := y, isDragging := True \<rparr> else s)
   \<and> (isScrollable (containerRef e) target \<longleftrightarrow>
        (\<exists>n \<in> set (takeWhile (\<lambda>n. nid n \<noteq> containerRef e) target).
           nodeType n = 1 \<and> (overflowY n = ''auto'' \<or> overflowY n = ''scroll'') \<and> scrollTop n > 0))"
  by (auto simp: handleStart_def isScrollable_iff)

theorem handleStart_accepts_witness:
  "handleStart (envAt 1000) 100 [] initial = pressed
   \<and> handleStart (envAt 1000) 100 [scrolledInner] initial = initial
   \<and> handleStart (envScrolledAt 1000) 100 [] initial = initial
   \<and> handleStart (envAt 1000) 100 [] (initial\<lparr> isRefreshing := True \<rparr>) = initial\<lparr> isRefreshing := True \<rparr>"
  using handleStart_accepts [of "envAt 1000" 100 "[]" initial]
    handleStart_accepts [of "envAt 1000" 100 "[scrolledInner]" initial]
    handleStart_accepts [of "envScrolledAt 1000" 100 "[]" initial]
    handleStart_accepts [of "envAt 1000" 100 "[]" "initial\<lparr> isRefreshing := True \<rparr>"]
  by (simp add: envAt_def envScrolledAt_def initial_def pressed_def scrolledInner_def)

subsection \<open>C8: wheel events away from the top\<close>

text \<open>
  C8 says that a wheel event whose target lies in a scrolled nested region resets the
  distance and clears Pulling. The code returns at once in that case (line 175); only the
  page being scrolled away from its top resets (lines 168-172).
\<close>

theorem handleWheel_nested_counterexample:
  "\<not> isRefreshing wheeled \<and> isScrollable (containerRef (envAt 1020)) [scrolledInner]
   \<and> pullDistance (handleWheel (envAt 1020) (-10) True [scrolledInner] wheeled) = 45
   \<and> isPulling (handleWheel (envAt 1020) (-10) True [scrolledInner] wheeled)"
  by (simp add: wheeled_def initial_def handleWheel_def envAt_def scrolledInner_def)

text \<open>
  C8, amended: for a wheel event arriving while not Refreshing, if the page is scrolled away
  from its top (\<^verbatim>\<open>scrollY > 0\<close>) the handler resets the distance to 0, clears Pulling and
  does nothing else; if the page is at its top and the target lies within a nested
  scrollable region that is not at its own top, the handler changes nothing at all (no
  reset, no timer update, no accumulation).
\<close>

theorem handleWheel_guards:
  "\<not> isRefreshing s \<Longrightarrow>
     (scrollY e > 0 \<longrightarrow>
        handleWheel e deltaY cancelable target s = s\<lparr> pullDistance := 0, isPulling := False \<rparr>)
   \<and> (scrollY e \<le> 0 \<and> isScrollable (containerRef e) target \<longrightarrow>
        handleWheel e deltaY cancelable target s = s)"
  by (simp add: handleWheel_def)

theorem handleWheel_guards_witness:
  "\<not> isRefreshing wheeled \<and> scrollY (envScrolledAt 1020) > 0
   \<and> handleWheel (envScrolledAt 1020) (-10) True [] wheeled
       = wheeled\<lparr> pullDistance := 0, isPulling := False \<rparr>
   \<and> scrollY (envAt 1020) \<le> 0 \<and> isScrollable (containerRef (envAt 1020)) [scrolledInner]
   \<and> handleWheel (envAt 1020) (-10) True [scrolledInner] wheeled = wheeled"
  using handleWheel_guards [of wheeled "envScrolledAt 1020" "-10" True "[]"]
    handleWheel_guards [of wheeled "envAt 1020" "-10" True "[scrolledInner]"]
  by (simp add: wheeled_def initial_def envAt_def envScrolledAt_def scrolledInner_def)

subsection \<open>C10: the touch adapter and the first touch point\<close>

text \<open>
  C10: the start and move handlers of the touch adapter read \<^verbatim>\<open>e.touches[0].clientY\<close>
  before anything else. With an empty touch list they raise a \<^verbatim>\<open>TypeError\<close>, whatever
  the state; with at least one touch point they return and forward the first point's
  coordinate; the end handler reads no coordinate and always returns.
\<close>

theorem touch_adapter_reads_first_touch:
  "handleTouchStart e [] target s = Inl TypeError
   \<and> handleTouchMove e [] cancelable s = Inl TypeError
   \<and> (touches \<noteq> [] \<longrightarrow>
        handleTouchStart e touches target s = Inr (handleStart e (hd touches) target s)
      \<and> handleTouchMove e touches cancelable s = Inr (handleMove e (hd touches) cancelable s))
   \<and> handleTouchEnd e s = Inr (handleEnd e s)"
  by (cases touches) (simp_all add: handleTouchStart_def handleTouchMove_def handleTouchEnd_def)

theorem touch_adapter_reads_first_touch_witness:
  "[130, 400] \<noteq> ([] :: rat list)
   \<and> handleTouchStart (envAt 1000) [130, 400] [] initial
       = Inr (initial\<lparr> startY := 130, isDragging := True \<rparr>)
   \<and> handleTouchMove (envAt 1010) [300, 400] True pressed
       = Inr (pressed\<lparr> preventDefaultCalls := 1, isPulling := True, pullDistance := 80 \<rparr>)
   \<and> handleTouchStart (envAt 1000) [] [] initial = Inl TypeError"
  using touch_adapter_reads_first_touch [of "envAt 1000" "[]" initial True "[130, 400]"]
    touch_adapter_reads_first_touch [of "envAt 1010" "[]" pressed True "[300, 400]"]
  by (simp add: handleStart_def handleMove_def envAt_def initial_def pressed_def preventDefault_def)

subsection \<open>C5: the resistance curve of the touch and mouse path\<close>

text \<open>What one processed move does to the distance and the flags.\<close>

lemma handleMove_step:
  assumes "isDragging s" "\<not> isRefreshing s" "scrollY e \<le> 5"
  shows "pullDistance (handleMove e y c s) = max 0 (y - startY s) * 0.4"
    and "isPulling (handleMove e y c s) \<longleftrightarrow> y - startY s > 0"
    and "isDragging (handleMove e y c s) \<longleftrightarrow> y - startY s \<ge> 0"
  using assms by (auto simp: handleMove_def preventDefault_def Let_def max_def)

lemma handleMove_frame:
  "startY (handleMove e y c s) = startY s"
  "isRefreshing (handleMove e y c s) = isRefreshing s"
  "refreshCalls (handleMove e y c s) = refreshCalls s"
  "timers (handleMove e y c s) = timers s"
  by (simp_all add: handleMove_def preventDefault_def Let_def)

lemma handleMove_dragSettled:
  "dragSettled s \<Longrightarrow> dragSettled (handleMove e y c s)"
  by (auto simp: dragSettled_def handleMove_def preventDefault_def Let_def)

text \<open>The mouse adapter forwards every move to the shared handler.\<close>

lemma handleMouseMove_eq: "handleMouseMove e y c s = handleMove e y c s"
  by (simp add: handleMouseMove_def handleMove_def)

lemma moves_snoc: "moves (ms @ [(e, y, c)]) s = handleMove e y c (moves ms s)"
  by (simp add: moves_def handleMouseMove_eq)

lemma moves_frame:
  "startY (moves ms s) = startY s \<and> isRefreshing (moves ms s) = isRefreshing s
   \<and> (dragSettled s \<longrightarrow> dragSettled (moves ms s))"
proof (induction ms rule: rev_induct)
  case Nil
  show ?case by (simp add: moves_def)
next
  case (snoc m ms)
  obtain e y c where m: "m = (e, y, c)" by (cases m)
  from snoc show ?case
    unfolding m moves_snoc by (simp add: handleMove_frame handleMove_dragSettled)
qed

lemma moves_sample:
  assumes "isDragging s" "\<not> isRefreshing s" "scrollY e \<le> 5"
    and "isPulling (moves (ms @ [(e, y, c)]) s)"
  shows "pullDistance (moves (ms @ [(e, y, c)]) s) = max 0 (y - startY s) * 0.4
         \<and> y - startY s > 0"
proof -
  let ?t = "moves ms s"
  have fr: "startY ?t = startY s" "\<not> isRefreshing ?t" "dragSettled ?t"
    using assms(1,2) moves_frame [of ms s] by (simp_all add: dragSettled_def)
  show ?thesis
  proof (cases "isDragging ?t")
    case True
    with fr assms(3,4) show ?thesis
      unfolding moves_snoc using handleMove_step [of ?t e y c] by simp
  next
    case False
    with fr have "\<not> isPulling ?t" by (simp add: dragSettled_def)
    with False assms(4) show ?thesis
      unfolding moves_snoc by (simp add: handleMove_def)
  qed
qed

text \<open>
  C5: while a drag is active, the state is not Refreshing and the page scroll offset is at
  most 5, a move to \<open>y\<close> with \<open>diff = y - startY\<close> sets the distance to \<open>diff * 0.4\<close> and
  Pulling to true when \<open>diff > 0\<close>, and sets the distance to 0 and Pulling to false when
  \<open>diff \<le> 0\<close>; \<open>diff < 0\<close> also ends the drag. So the distance is \<open>max 0 diff * 0.4\<close>,
  it grows with \<open>y\<close>, and after any run of earlier moves a sample taken in the Pulling state
  shows \<open>max 0 diff * 0.4\<close> for the latest coordinate.
\<close>

theorem handleMove_resistance:
  assumes "isDragging s" "\<not> isRefreshing s" "scrollY e \<le> 5"
  shows "(y - startY s > 0 \<longrightarrow>
            pullDistance (handleMove e y c s) = (y - startY s) * 0.4
          \<and> isPulling (handleMove e y c s) \<and> isDragging (handleMove e y c s))
     \<and> (y - startY s \<le> 0 \<longrightarrow>
            pullDistance (handleMove e y c s) = 0 \<and> \<not> isPulling (handleMove e y c s))
     \<and> (y - startY s < 0 \<longrightarrow> \<not> isDragging (handleMove e y c s))
     \<and> pullDistance (handleMove e y c s) = max 0 (y - startY s) * 0.4
     \<and> (y \<le> y' \<longrightarrow> pullDistance (handleMove e y c s) \<le> pullDistance (handleMove e y' c' s))
     \<and> (isPulling (moves (ms @ [(e, y, c)]) s) \<longrightarrow>
            pullDistance (moves (ms @ [(e, y, c)]) s) = max 0 (y - startY s) * 0.4)
     \<and> handleMouseMove e y c s = handleMove e y c s
     \<and> handleTouchMove e (y # others) c s = Inr (handleMove e y c s)"
proof -
  note st = handleMove_step [OF assms]
  have tm: "handleTouchMove e (y # others) c s = Inr (handleMove e y c s)"
    by (simp add: handleTouchMove_def)
  have a: "y - startY s > 0 \<longrightarrow>
            pullDistance (handleMove e y c s) = (y - startY s) * 0.4
          \<and> isPulling (handleMove e y c s) \<and> isDragging (handleMove e y c s)"
    by (simp add: st)
  have b: "y - startY s \<le> 0 \<longrightarrow>
            pullDistance (handleMove e y c s) = 0 \<and> \<not> isPulling (handleMove e y c s)"
    by (simp add: st)
  have c: "y - startY s < 0 \<longrightarrow> \<not> isDragging (handleMove e y c s)"
    by (simp add: st)
  have d: "y \<le> y' \<longrightarrow> pullDistance (handleMove e y c s) \<le> pullDistance (handleMove e y' c' s)"
    by (simp add: st max_def)
  have f: "isPulling (moves (ms @ [(e, y, c)]) s) \<longrightarrow>
            pullDistance (moves (ms @ [(e, y, c)]) s) = max 0 (y - startY s) * 0.4"
    using moves_sample [OF assms] by blast
  from a b c d f st(1) handleMouseMove_eq tm show ?thesis by blast
qed

theorem handleMove_resistance_witness:
  "isDragging pressed \<and> \<not> isRefreshing pressed \<and> scrollY (envAt 1010) \<le> 5
   \<and> pullDistance (handleMove (envAt 1010) 250 True pressed) = 60
   \<and> isPulling (handleMove (envAt 1010) 250 True pressed)
   \<and> (250::rat) \<le> 300
   \<and> pullDistance (handleMove (envAt 1010) 250 True pressed)
       \<le> pullDistance (handleMove (envAt 1010) 300 True pressed)
   \<and> isPulling (moves ([(envAt 1005, 180, True)] @ [(envAt 1010, 250, True)]) pressed)
   \<and> pullDistance (moves ([(envAt 1005, 180, True)] @ [(envAt 1010, 250, True)]) pressed) = 60
   \<and> handleTouchMove (envAt 1010) [250, 400] True pressed
       = Inr (handleMove (envAt 1010) 250 True pressed)
   \<and> 60 - startY pressed < 0
   \<and> pullDistance (handleMove (envAt 1010) 60 True pressed) = 0
   \<and> \<not> isPulling (handleMove (envAt 1010) 60 True pressed)
   \<and> \<not> isDragging (handleMove (envAt 1010) 60 True pressed)"
  using handleMove_resistance [where s = pressed and e = "envAt 1010" and y = 250 and c = True
      and y' = 300 and c' = True and ms = "[(envAt 1005, 180, True)]" and others = "[400]"]
    handleMove_resistance [where s = pressed and e = "envAt 1010" and y = 60 and c = True
      and y' = 300 and c' = True and ms = "[]" and others = "[]"]
  by (simp add: pressed_def initial_def envAt_def moves_def handleMouseMove_def handleMove_def
      preventDefault_def)

subsection \<open>C6: throttling of upward wheel events\<close>

text \<open>What re-arming the inactivity timer leaves alone, and what it sets.\<close>

lemma rearmInactivity_fields:
  "pullDistance (rearmInactivity e s) = pullDistance s"
  "isRefreshing (rearmInactivity e s) = isRefreshing s"
  "isPulling (rearmInactivity e s) = isPulling s"
  "isDragging (rearmInactivity e s) = isDragging s"
  "startY (rearmInactivity e s) = startY s"
  "lastWheelTime (rearmInactivity e s) = lastWheelTime s"
  "accumulatedDelta (rearmInactivity e s) = accumulatedDelta s"
  "refreshCalls (rearmInactivity e s) = refreshCalls s"
  "pendingRefreshes (rearmInactivity e s) = pendingRefreshes s"
  "preventDefaultCalls (rearmInactivity e s) = preventDefaultCalls s"
  "lastWheelEventTime (rearmInactivity e s) = now e"
  "inactivityTimer (rearmInactivity e s) = Some (nextTimerId s)"
  "nextTimerId (rearmInactivity e s) = Suc (nextTimerId s)"
  "timers (rearmInactivity e s) =
     filter (\<lambda>x. Some (fst x) \<noteq> inactivityTimer s) (timers s)
       @ [(nextTimerId s, now e + 50, Inactivity)]"
  by (simp_all add: rearmInactivity_def setTimeout_def clearTimeout_def Let_def split: option.splits)

lemma handleWheel_passes:
  "\<not> isRefreshing s \<Longrightarrow> scrollY e \<le> 0 \<Longrightarrow> \<not> isScrollable (containerRef e) target \<Longrightarrow>
   handleWheel e deltaY c target s =
     (if deltaY < 0 then wheelUp e deltaY c (rearmInactivity e s)
      else wheelDown e deltaY c (rearmInactivity e s))"
  by (simp add: handleWheel_def Let_def)

lemma wheelUp_within_window:
  "now e - lastWheelTime s < 16 \<Longrightarrow>
   wheelUp e deltaY c s = s\<lparr> accumulatedDelta := accumulatedDelta s + (- deltaY * 0.3) \<rparr>"
  by (simp add: wheelUp_def)

lemma wheelUp_processed:
  assumes "\<not> now e - lastWheelTime s < 16"
    and "\<not> (min (pullDistance s + accumulatedDelta s + (- deltaY * 0.3)) (threshold e * 2) \<ge> threshold e
            \<and> - deltaY > 50)"
  shows "pullDistance (wheelUp e deltaY c s)
           = min (pullDistance s + accumulatedDelta s + (- deltaY * 0.3)) (threshold e * 2)"
    and "accumulatedDelta (wheelUp e deltaY c s) = 0"
    and "isPulling (wheelUp e deltaY c s)"
    and "isRefreshing (wheelUp e deltaY c s) = isRefreshing s"
    and "refreshCalls (wheelUp e deltaY c s) = refreshCalls s"
    and "lastWheelTime (wheelUp e deltaY c s) = now e"
    and "preventDefaultCalls (wheelUp e deltaY c s)
           = (if 0 < pullDistance s \<and> c then Suc (preventDefaultCalls s) else preventDefaultCalls s)"
  using assms by (auto simp: wheelUp_def preventDefault_def Let_def)

lemma wheelUp_immediate:
  assumes "\<not> now e - lastWheelTime s < 16"
    and "min (pullDistance s + accumulatedDelta s + (- deltaY * 0.3)) (threshold e * 2) \<ge> threshold e"
    and "- deltaY > 50"
  shows "pullDistance (wheelUp e deltaY c s) = threshold e"
    and "accumulatedDelta (wheelUp e deltaY c s) = 0"
    and "\<not> isPulling (wheelUp e deltaY c s)"
    and "isRefreshing (wheelUp e deltaY c s)"
    and "refreshCalls (wheelUp e deltaY c s) = Suc (refreshCalls s)"
    and "lastWheelTime (wheelUp e deltaY c s) = now e"
    and "preventDefaultCalls (wheelUp e deltaY c s)
           = (if 0 < pullDistance s \<and> c then Suc (preventDefaultCalls s) else preventDefaultCalls s)"
  using assms
  by (auto simp: wheelUp_def preventDefault_def executeRefresh_def onRefresh_def clearTimeout_def
      Let_def split: option.splits)

lemma wheels_Cons:
  "wheels ((e, deltaY, c, target) # ws) s = wheels ws (handleWheel e deltaY c target s)"
  by (simp add: wheels_def)

lemma wheels_burst:
  assumes "\<not> isRefreshing s" "\<forall>w \<in> set burst. throttledAfter (lastWheelTime s) w"
  shows "pullDistance (wheels burst s) = pullDistance s
       \<and> accumulatedDelta (wheels burst s) = accumulatedDelta s + scaledSum burst
       \<and> isPulling (wheels burst s) = isPulling s
       \<and> \<not> isRefreshing (wheels burst s)
       \<and> lastWheelTime (wheels burst s) = lastWheelTime s
       \<and> refreshCalls (wheels burst s) = refreshCalls s"
  using assms
proof (induction burst arbitrary: s)
  case Nil
  then show ?case by (simp add: wheels_def scaledSum_def)
next
  case (Cons w burst)
  obtain e deltaY c target where w: "w = (e, deltaY, c, target)" by (cases w)
  from Cons.prems(2) have g: "scrollY e \<le> 0" "\<not> isScrollable (containerRef e) target"
      "deltaY < 0" "now e - lastWheelTime s < 16"
    by (simp_all add: w throttledAfter_def)
  let ?s1 = "handleWheel e deltaY c target s"
  have eq: "?s1 = (rearmInactivity e s)\<lparr> accumulatedDelta := accumulatedDelta s + (- deltaY * 0.3) \<rparr>"
    using Cons.prems(1) g
    by (simp add: handleWheel_passes wheelUp_within_window rearmInactivity_fields)
  have one: "pullDistance ?s1 = pullDistance s" "accumulatedDelta ?s1 = accumulatedDelta s + (- deltaY * 0.3)"
    "isPulling ?s1 = isPulling s" "\<not> isRefreshing ?s1" "lastWheelTime ?s1 = lastWheelTime s"
    "refreshCalls ?s1 = refreshCalls s"
    using Cons.prems(1) by (simp_all add: eq rearmInactivity_fields)
  have "\<forall>w \<in> set burst. throttledAfter (lastWheelTime ?s1) w"
    using Cons.prems(2) one(5) by simp
  from Cons.IH [OF one(4) this] one show ?case
    by (simp add: w wheels_Cons scaledSum_def)
qed

text \<open>
  C6 says that every upward wheel event arriving at or after the 16 ms window leaves the
  distance at the clamped sum and Pulling true, and that a burst of events within 16 ms of
  each other shows nothing until the window has elapsed and then the full sum.

  When the clamped sum reaches the threshold and \<^verbatim>\<open>-deltaY > 50\<close>, the handler goes on to
  \<^verbatim>\<open>executeRefresh()\<close> (lines 229-232), which snaps the distance to the threshold and
  clears Pulling: from distance 45 an event with \<^verbatim>\<open>deltaY = -150\<close> gives the sum 90 and the
  handler returns with distance 60.

  And the burst \<open>[-20, -20, -20]\<close> at 1000, 1005 and 1010 ms from rest: the first event is
  processed at once (\<^verbatim>\<open>lastWheelTime\<close> starts at 0) and shows 6; the other two only
  accumulate 12; the elapsing of the window changes nothing (at 1059 ms the distance is
  still 6); and when the inactivity timer fires at 1060 ms it resets the distance and drops
  the accumulator (line 195), so the sum 18 is never shown.
\<close>

theorem wheelUp_counterexample:
  "run [(envAt 1000, Wheel (-150) True [])] initial = Inr wheeled
   \<and> \<not> isRefreshing wheeled \<and> scrollY (envAt 1020) \<le> 0
   \<and> \<not> isScrollable (containerRef (envAt 1020)) [] \<and> (-150::rat) < 0
   \<and> now (envAt 1020) - lastWheelTime wheeled \<ge> 16
   \<and> min (pullDistance wheeled + accumulatedDelta wheeled + (- (-150) * 0.3))
         (2 * threshold (envAt 1020)) = 90
   \<and> pullDistance (handleWheel (envAt 1020) (-150) True [] wheeled) = 60
   \<and> \<not> isPulling (handleWheel (envAt 1020) (-150) True [] wheeled)
   \<and> run [(envAt 1000, Wheel (-20) True [])] initial
        = Inr (initial\<lparr> pullDistance := 6, isPulling := True, lastWheelTime := 1000,
                 lastWheelEventTime := 1000, inactivityTimer := Some 1,
                 timers := [(1, 1050, Inactivity)], nextTimerId := 2 \<rparr>)
   \<and> run [(envAt 1000, Wheel (-20) True []), (envAt 1005, Wheel (-20) True []),
           (envAt 1010, Wheel (-20) True [])] initial
        = Inr (initial\<lparr> pullDistance := 6, isPulling := True, lastWheelTime := 1000,
                 accumulatedDelta := 12, lastWheelEventTime := 1010, inactivityTimer := Some 3,
                 timers := [(3, 1060, Inactivity)], nextTimerId := 4 \<rparr>)
   \<and> run [(envAt 1000, Wheel (-20) True []), (envAt 1005, Wheel (-20) True []),
           (envAt 1010, Wheel (-20) True []), (envAt 1059, TimerFires 3)] initial
        = Inr (initial\<lparr> pullDistance := 6, isPulling := True, lastWheelTime := 1000,
                 accumulatedDelta := 12, lastWheelEventTime := 1010, inactivityTimer := Some 3,
                 timers := [(3, 1060, Inactivity)], nextTimerId := 4 \<rparr>)
   \<and> run [(envAt 1000, Wheel (-20) True []), (envAt 1005, Wheel (-20) True []),
           (envAt 1010, Wheel (-20) True []), (envAt 1060, TimerFires 3)] initial
        = Inr (initial\<lparr> pullDistance := 0, isPulling := False, lastWheelTime := 1000,
                 accumulatedDelta := 0, lastWheelEventTime := 1010, inactivityTimer := Some 3,
                 timers := [], nextTimerId := 4 \<rparr>)"
  by (simp add: wheeled_def initial_def envAt_def handleWheel_def rearmInactivity_def wheelUp_def
      setTimeout_def clearTimeout_def executeRefresh_def onRefresh_def preventDefault_def
      fireTimer_def Let_def)

text \<open>The parts of the amended statement, each for an event that passes the guards.\<close>

lemma wheel_within_window:
  assumes "\<not> isRefreshing s" "scrollY e \<le> 0" "\<not> isScrollable (containerRef e) target"
    and "deltaY < 0"
  shows "(now e - lastWheelTime s < 16 \<longrightarrow>
          handleWheel e deltaY c target s
            = (rearmInactivity e s)\<lparr> accumulatedDelta := accumulatedDelta s + (- deltaY * 0.3) \<rparr>
        \<and> accumulatedDelta (handleWheel e deltaY c target s) = accumulatedDelta s + (- deltaY * 0.3)
        \<and> pullDistance (handleWheel e deltaY c target s) = pullDistance s
        \<and> isPulling (handleWheel e deltaY c target s) = isPulling s
        \<and> \<not> isRefreshing (handleWheel e deltaY c target s)
        \<and> refreshCalls (handleWheel e deltaY c target s) = refreshCalls s
        \<and> lastWheelTime (handleWheel e deltaY c target s) = lastWheelTime s
        \<and> preventDefaultCalls (handleWheel e deltaY c target s) = preventDefaultCalls s)"
  using assms by (simp add: handleWheel_passes wheelUp_within_window rearmInactivity_fields)

lemma wheel_processed:
  assumes "\<not> isRefreshing s" "scrollY e \<le> 0" "\<not> isScrollable (containerRef e) target"
    and "deltaY < 0"
  shows "(now e - lastWheelTime s \<ge> 16
        \<and> \<not> (min (pullDistance s + accumulatedDelta s + (- deltaY * 0.3)) (2 * threshold e) \<ge> threshold e
               \<and> - deltaY > 50) \<longrightarrow>
          pullDistance (handleWheel e deltaY c target s)
            = min (pullDistance s + accumulatedDelta s + (- deltaY * 0.3)) (2 * threshold e)
        \<and> accumulatedDelta (handleWheel e deltaY c target s) = 0
        \<and> isPulling (handleWheel e deltaY c target s)
        \<and> \<not> isRefreshing (handleWheel e deltaY c target s)
        \<and> refreshCalls (handleWheel e deltaY c target s) = refreshCalls s
        \<and> lastWheelTime (handleWheel e deltaY c target s) = now e
        \<and> preventDefaultCalls (handleWheel e deltaY c target s)
            = (if 0 < pullDistance s \<and> c then Suc (preventDefaultCalls s)
               else preventDefaultCalls s))"
proof
  assume h: "now e - lastWheelTime s \<ge> 16
        \<and> \<not> (min (pullDistance s + accumulatedDelta s + (- deltaY * 0.3)) (2 * threshold e) \<ge> threshold e
               \<and> - deltaY > 50)"
  let ?r = "rearmInactivity e s"
  have a: "\<not> now e - lastWheelTime ?r < 16" using h by (simp add: rearmInactivity_fields)
  have b: "\<not> (min (pullDistance ?r + accumulatedDelta ?r + (- deltaY * 0.3)) (threshold e * 2) \<ge> threshold e
            \<and> - deltaY > 50)"
    using h by (simp add: rearmInactivity_fields mult.commute)
  from wheelUp_processed [OF a b, of c] assms
  show "pullDistance (handleWheel e deltaY c target s)
            = min (pullDistance s + accumulatedDelta s + (- deltaY * 0.3)) (2 * threshold e)
        \<and> accumulatedDelta (handleWheel e deltaY c target s) = 0
        \<and> isPulling (handleWheel e deltaY c target s)
        \<and> \<not> isRefreshing (handleWheel e deltaY c target s)
        \<and> refreshCalls (handleWheel e deltaY c target s) = refreshCalls s
        \<and> lastWheelTime (handleWheel e deltaY c target s) = now e
        \<and> preventDefaultCalls (handleWheel e deltaY c target s)
            = (if 0 < pullDistance s \<and> c then Suc (preventDefaultCalls s)
               else preventDefaultCalls s)"
    by (simp add: handleWheel_passes rearmInactivity_fields mult.commute)
qed

lemma wheel_immediate:
  assumes "\<not> isRefreshing s" "scrollY e \<le> 0" "\<not> isScrollable (containerRef e) target"
    and "deltaY < 0"
  shows "(now e - lastWheelTime s \<ge> 16
        \<and> min (pullDistance s + accumulatedDelta s + (- deltaY * 0.3)) (2 * threshold e) \<ge> threshold e
        \<and> - deltaY > 50 \<longrightarrow>
          pullDistance (handleWheel e deltaY c target s) = threshold e
        \<and> accumulatedDelta (handleWheel e deltaY c target s) = 0
        \<and> \<not> isPulling (handleWheel e deltaY c target s)
        \<and> isRefreshing (handleWheel e deltaY c target s)
        \<and> refreshCalls (handleWheel e deltaY c target s) = refreshCalls s + 1
        \<and> lastWheelTime (handleWheel e deltaY c target s) = now e)"
proof
  assume h: "now e - lastWheelTime s \<ge> 16
        \<and> min (pullDistance s + accumulatedDelta s + (- deltaY * 0.3)) (2 * threshold e) \<ge> threshold e
        \<and> - deltaY > 50"
  let ?r = "rearmInactivity e s"
  have a: "\<not> now e - lastWheelTime ?r < 16" using h by (simp add: rearmInactivity_fields)
  have b: "min (pullDistance ?r + accumulatedDelta ?r + (- deltaY * 0.3)) (threshold e * 2) \<ge> threshold e"
    using h by (simp add: rearmInactivity_fields mult.commute)
  have d: "- deltaY > 50" using h by simp
  from wheelUp_immediate [OF a b d, of c] assms
  show "pullDistance (handleWheel e deltaY c target s) = threshold e
        \<and> accumulatedDelta (handleWheel e deltaY c target s) = 0
        \<and> \<not> isPulling (handleWheel e deltaY c target s)
        \<and> isRefreshing (handleWheel e deltaY c target s)
        \<and> refreshCalls (handleWheel e deltaY c target s) = refreshCalls s + 1
        \<and> lastWheelTime (handleWheel e deltaY c target s) = now e"
    by (simp add: handleWheel_passes rearmInactivity_fields)
qed

lemma wheel_burst_waits:
  assumes "\<not> isRefreshing s" "scrollY e \<le> 0" "\<not> isScrollable (containerRef e) target"
    and "deltaY < 0"
  shows "((\<forall>w \<in> set burst. throttledAfter (lastWheelTime s) w) \<longrightarrow>
          pullDistance (wheels burst s) = pullDistance s
        \<and> accumulatedDelta (wheels burst s) = accumulatedDelta s + scaledSum burst
        \<and> isPulling (wheels burst s) = isPulling s
        \<and> lastWheelTime (wheels burst s) = lastWheelTime s)"
  using wheels_burst [OF assms(1)] by blast

lemma wheel_burst_flushed:
  assumes "\<not> isRefreshing s" "scrollY e \<le> 0" "\<not> isScrollable (containerRef e) target"
    and "deltaY < 0"
  shows "((\<forall>w \<in> set burst. throttledAfter (lastWheelTime s) w)
        \<and> now e - lastWheelTime s \<ge> 16
        \<and> \<not> (min (pullDistance s + accumulatedDelta s + scaledSum burst + (- deltaY * 0.3))
                (2 * threshold e) \<ge> threshold e \<and> - deltaY > 50) \<longrightarrow>
          pullDistance (handleWheel e deltaY c target (wheels burst s))
            = min (pullDistance s + accumulatedDelta s + scaledSum burst + (- deltaY * 0.3))
                (2 * threshold e)
        \<and> accumulatedDelta (handleWheel e deltaY c target (wheels burst s)) = 0
        \<and> isPulling (handleWheel e deltaY c target (wheels burst s)))"
proof
  assume h: "(\<forall>w \<in> set burst. throttledAfter (lastWheelTime s) w)
        \<and> now e - lastWheelTime s \<ge> 16
        \<and> \<not> (min (pullDistance s + accumulatedDelta s + scaledSum burst + (- deltaY * 0.3))
                (2 * threshold e) \<ge> threshold e \<and> - deltaY > 50)"
  let ?t = "wheels burst s"
  from h have b: "\<forall>w \<in> set burst. throttledAfter (lastWheelTime s) w" by blast
  note wb = wheels_burst [OF assms(1) b]
  have t1: "\<not> isRefreshing ?t" using wb by simp
  have t2: "now e - lastWheelTime ?t \<ge> 16
        \<and> \<not> (min (pullDistance ?t + accumulatedDelta ?t + (- deltaY * 0.3)) (2 * threshold e) \<ge> threshold e
               \<and> - deltaY > 50)"
    using wb h by (simp add: add.assoc)
  from wheel_processed [OF t1 assms(2-4), of c] t2 wb
  show "pullDistance (handleWheel e deltaY c target (wheels burst s))
            = min (pullDistance s + accumulatedDelta s + scaledSum burst + (- deltaY * 0.3))
                (2 * threshold e)
        \<and> accumulatedDelta (handleWheel e deltaY c target (wheels burst s)) = 0
        \<and> isPulling (handleWheel e deltaY c target (wheels burst s))"
    by (simp add: add.assoc)
qed

lemma wheel_burst_led:
  assumes "\<not> isRefreshing s" "scrollY e \<le> 0" "\<not> isScrollable (containerRef e) target"
    and "deltaY < 0"
  shows "(now e - lastWheelTime s \<ge> 16
        \<and> \<not> (min (pullDistance s + accumulatedDelta s + (- deltaY * 0.3)) (2 * threshold e) \<ge> threshold e
               \<and> - deltaY > 50)
        \<and> (\<forall>w \<in> set burst. throttledAfter (now e) w) \<longrightarrow>
          pullDistance (wheels burst (handleWheel e deltaY c target s))
            = min (pullDistance s + accumulatedDelta s + (- deltaY * 0.3)) (2 * threshold e)
        \<and> accumulatedDelta (wheels burst (handleWheel e deltaY c target s)) = scaledSum burst
        \<and> isPulling (wheels burst (handleWheel e deltaY c target s))
        \<and> lastWheelTime (wheels burst (handleWheel e deltaY c target s)) = now e)"
proof
  assume h: "now e - lastWheelTime s \<ge> 16
        \<and> \<not> (min (pullDistance s + accumulatedDelta s + (- deltaY * 0.3)) (2 * threshold e) \<ge> threshold e
               \<and> - deltaY > 50)
        \<and> (\<forall>w \<in> set burst. throttledAfter (now e) w)"
  let ?t = "handleWheel e deltaY c target s"
  from h have p: "now e - lastWheelTime s \<ge> 16
        \<and> \<not> (min (pullDistance s + accumulatedDelta s + (- deltaY * 0.3)) (2 * threshold e) \<ge> threshold e
               \<and> - deltaY > 50)" by blast
  note f = wheel_processed [OF assms, of c, THEN mp, OF p]
  have t1: "\<not> isRefreshing ?t" using f by simp
  have t2: "\<forall>w \<in> set burst. throttledAfter (lastWheelTime ?t) w" using f h by simp
  from wheels_burst [OF t1 t2] f
  show "pullDistance (wheels burst (handleWheel e deltaY c target s))
            = min (pullDistance s + accumulatedDelta s + (- deltaY * 0.3)) (2 * threshold e)
        \<and> accumulatedDelta (wheels burst (handleWheel e deltaY c target s)) = scaledSum burst
        \<and> isPulling (wheels burst (handleWheel e deltaY c target s))
        \<and> lastWheelTime (wheels burst (handleWheel e deltaY c target s)) = now e"
    by simp
qed

lemma inactivity_discards:
  "(accumulatedDelta (timerCallback e' Inactivity u) = 0
        \<and> pullDistance (timerCallback e' Inactivity u)
            = (if threshold e' \<le> pullDistance u then threshold e' else 0))"
  by (simp add: executeRefresh_def onRefresh_def Let_def)

text \<open>
  C6, amended: for an upward wheel event (\<^verbatim>\<open>deltaY < 0\<close>) that passes the guards of the
  handler (not Refreshing, page at its top, target not in a scrolled nested region): if it
  arrives less than 16 ms after the last processed one, the handler adds \<open>-deltaY * 0.3\<close>
  to the accumulator, re-arms the inactivity timer and leaves the visible distance and the
  flags alone; if it arrives at or after the 16 ms window, it becomes the last processed
  one, the distance becomes the previous distance plus the accumulator plus
  \<open>-deltaY * 0.3\<close>, clamped to twice the threshold, the accumulator is zeroed and Pulling
  becomes true, unless that distance reaches the threshold and \<^verbatim>\<open>-deltaY > 50\<close>, in which
  case the refresh starts at once (one callback, distance snapped to the threshold, Pulling
  cleared, Refreshing set). So in a burst of events all within 16 ms of each other, an
  event that opens the burst at or after the window (always so from rest) is shown at once;
  the events that follow within 16 ms of it change no visible distance; what they
  accumulated is shown only by the next event at or after the window, whose update is the
  previous distance plus the full accumulated scaled sum plus its own scaled delta; and it
  is dropped if the inactivity timer fires first.
\<close>

theorem wheelUp_throttle:
  assumes "\<not> isRefreshing s" "scrollY e \<le> 0" "\<not> isScrollable (containerRef e) target"
    and "deltaY < 0"
  shows "(now e - lastWheelTime s < 16 \<longrightarrow>
            handleWheel e deltaY c target s
              = (rearmInactivity e s)\<lparr> accumulatedDelta := accumulatedDelta s + (- deltaY * 0.3) \<rparr>
          \<and> accumulatedDelta (handleWheel e deltaY c target s) = accumulatedDelta s + (- deltaY * 0.3)
          \<and> pullDistance (handleWheel e deltaY c target s) = pullDistance s
          \<and> isPulling (handleWheel e deltaY c target s) = isPulling s
          \<and> \<not> isRefreshing (handleWheel e deltaY c target s)
          \<and> refreshCalls (handleWheel e deltaY c target s) = refreshCalls s
          \<and> lastWheelTime (handleWheel e deltaY c target s) = lastWheelTime s
          \<and> preventDefaultCalls (handleWheel e deltaY c target s) = preventDefaultCalls s)
     \<and> (now e - lastWheelTime s \<ge> 16
          \<and> \<not> (min (pullDistance s + accumulatedDelta s + (- deltaY * 0.3)) (2 * threshold e) \<ge> threshold e
                 \<and> - deltaY > 50) \<longrightarrow>
            pullDistance (handleWheel e deltaY c target s)
              = min (pullDistance s + accumulatedDelta s + (- deltaY * 0.3)) (2 * threshold e)
          \<and> accumulatedDelta (handleWheel e deltaY c target s) = 0
          \<and> isPulling (handleWheel e deltaY c target s)
          \<and> \<not> isRefreshing (handleWheel e deltaY c target s)
          \<and> refreshCalls (handleWheel e deltaY c target s) = refreshCalls s
          \<and> lastWheelTime (handleWheel e deltaY c target s) = now e
          \<and> preventDefaultCalls (handleWheel e deltaY c target s)
              = (if 0 < pullDistance s \<and> c then Suc (preventDefaultCalls s)
                 else preventDefaultCalls s))
     \<and> (now e - lastWheelTime s \<ge> 16
          \<and> min (pullDistance s + accumulatedDelta s + (- deltaY * 0.3)) (2 * threshold e) \<ge> threshold e
          \<and> - deltaY > 50 \<longrightarrow>
            pullDistance (handleWheel e deltaY c target s) = threshold e
          \<and> accumulatedDelta (handleWheel e deltaY c target s) = 0
          \<and> \<not> isPulling (handleWheel e deltaY c target s)
          \<and> isRefreshing (handleWheel e deltaY c target s)
          \<and> refreshCalls (handleWheel e deltaY c target s) = refreshCalls s + 1
          \<and> lastWheelTime (handleWheel e deltaY c target s) = now e)
     \<and> ((\<forall>w \<in> set burst. throttledAfter (lastWheelTime s) w) \<longrightarrow>
            pullDistance (wheels burst s) = pullDistance s
          \<and> accumulatedDelta (wheels burst s) = accumulatedDelta s + scaledSum burst
          \<and> isPulling (wheels burst s) = isPulling s
          \<and> lastWheelTime (wheels burst s) = lastWheelTime s)
     \<and> ((\<forall>w \<in> set burst. throttledAfter (lastWheelTime s) w)
          \<and> now e - lastWheelTime s \<ge> 16
          \<and> \<not> (min (pullDistance s + accumulatedDelta s + scaledSum burst + (- deltaY * 0.3))
                  (2 * threshold e) \<ge> threshold e \<and> - deltaY > 50) \<longrightarrow>
            pullDistance (handleWheel e deltaY c target (wheels burst s))
              = min (pullDistance s + accumulatedDelta s + scaledSum burst + (- deltaY * 0.3))
                  (2 * threshold e)
          \<and> accumulatedDelta (handleWheel e deltaY c target (wheels burst s)) = 0
          \<and> isPulling (handleWheel e deltaY c target (wheels burst s)))
     \<and> (now e - lastWheelTime s \<ge> 16
          \<and> \<not> (min (pullDistance s + accumulatedDelta s + (- deltaY * 0.3)) (2 * threshold e) \<ge> threshold e
                 \<and> - deltaY > 50)
          \<and> (\<forall>w \<in> set burst. throttledAfter (now e) w) \<longrightarrow>
            pullDistance (wheels burst (handleWheel e deltaY c target s))
              = min (pullDistance s + accumulatedDelta s + (- deltaY * 0.3)) (2 * threshold e)
          \<and> accumulatedDelta (wheels burst (handleWheel e deltaY c target s)) = scaledSum burst
          \<and> isPulling (wheels burst (handleWheel e deltaY c target s))
          \<and> lastWheelTime (wheels burst (handleWheel e deltaY c target s)) = now e)
     \<and> (accumulatedDelta (timerCallback e' Inactivity u) = 0
          \<and> pullDistance (timerCallback e' Inactivity u)
              = (if threshold e' \<le> pullDistance u then threshold e' else 0))"
  using wheel_within_window [OF assms, of c] wheel_processed [OF assms, of c]
    wheel_immediate [OF assms, of c] wheel_burst_waits [OF assms, of burst]
    wheel_burst_flushed [OF assms, of burst c] wheel_burst_led [OF assms, of burst c]
    inactivity_discards [of e' u]
  by blast

theorem wheelUp_throttle_witness:
  "\<not> isRefreshing wheeled \<and> scrollY (envAt 1020) \<le> 0
   \<and> \<not> isScrollable (containerRef (envAt 1020)) [] \<and> (-20::rat) < 0
   \<and> throttledAfter (lastWheelTime wheeled) (envAt 1005, -20, True, [])
   \<and> throttledAfter (lastWheelTime wheeled) (envAt 1010, -20, True, [])
   \<and> now (envAt 1020) - lastWheelTime wheeled \<ge> 16
   \<and> pullDistance (wheels [(envAt 1005, -20, True, []), (envAt 1010, -20, True, [])] wheeled) = 45
   \<and> accumulatedDelta (wheels [(envAt 1005, -20, True, []), (envAt 1010, -20, True, [])] wheeled) = 12
   \<and> pullDistance (handleWheel (envAt 1020) (-20) True []
        (wheels [(envAt 1005, -20, True, []), (envAt 1010, -20, True, [])] wheeled)) = 63
   \<and> pullDistance (handleWheel (envAt 1020) (-20) True [] wheeled) = 51
   \<and> lastWheelTime (handleWheel (envAt 1020) (-20) True [] wheeled) = 1020
   \<and> preventDefaultCalls (handleWheel (envAt 1020) (-20) True [] wheeled) = 1
   \<and> now (envAt 1005) - lastWheelTime wheeled < 16
   \<and> accumulatedDelta (handleWheel (envAt 1005) (-20) True [] wheeled) = 6
   \<and> pullDistance (handleWheel (envAt 1005) (-20) True [] wheeled) = 45
   \<and> lastWheelTime (handleWheel (envAt 1005) (-20) True [] wheeled) = 1000
   \<and> - (-150::rat) > 50
   \<and> pullDistance (handleWheel (envAt 1020) (-150) True [] wheeled) = 60
   \<and> isRefreshing (handleWheel (envAt 1020) (-150) True [] wheeled)
   \<and> \<not> isRefreshing initial \<and> now (envAt 1000) - lastWheelTime initial \<ge> 16
   \<and> throttledAfter (now (envAt 1000)) (envAt 1005, -20, True, [])
   \<and> throttledAfter (now (envAt 1000)) (envAt 1010, -20, True, [])
   \<and> pullDistance (wheels [(envAt 1005, -20, True, []), (envAt 1010, -20, True, [])]
        (handleWheel (envAt 1000) (-20) True [] initial)) = 6
   \<and> accumulatedDelta (wheels [(envAt 1005, -20, True, []), (envAt 1010, -20, True, [])]
        (handleWheel (envAt 1000) (-20) True [] initial)) = 12
   \<and> pullDistance (timerCallback (envAt 1060) Inactivity
        (wheels [(envAt 1005, -20, True, []), (envAt 1010, -20, True, [])]
          (handleWheel (envAt 1000) (-20) True [] initial))) = 0
   \<and> accumulatedDelta (timerCallback (envAt 1060) Inactivity
        (wheels [(envAt 1005, -20, True, []), (envAt 1010, -20, True, [])]
          (handleWheel (envAt 1000) (-20) True [] initial))) = 0"
proof -
  let ?burst = "[(envAt 1005, -20, True, []), (envAt 1010, -20, True, [])]"
  have g: "\<not> isRefreshing wheeled" "scrollY (envAt 1020) \<le> 0"
    "\<not> isScrollable (containerRef (envAt 1020)) []" "(-20::rat) < 0" "(-150::rat) < 0"
    "scrollY (envAt 1005) \<le> 0" "\<not> isScrollable (containerRef (envAt 1005)) []"
    "\<not> isRefreshing initial" "scrollY (envAt 1000) \<le> 0"
    "\<not> isScrollable (containerRef (envAt 1000)) []"
    by (simp_all add: wheeled_def initial_def envAt_def)
  have v: "lastWheelTime wheeled = 1000" "pullDistance wheeled = 45" "accumulatedDelta wheeled = 0"
    "preventDefaultCalls wheeled = 0" "lastWheelTime initial = 0" "pullDistance initial = 0"
    "accumulatedDelta initial = 0"
    "now (envAt 1020) = 1020" "now (envAt 1005) = 1005" "now (envAt 1000) = 1000"
    "threshold (envAt 1020) = 60" "threshold (envAt 1005) = 60" "threshold (envAt 1000) = 60"
    "threshold (envAt 1060) = 60"
    "throttledAfter 1000 (envAt 1005, -20, True, [])"
    "throttledAfter 1000 (envAt 1010, -20, True, [])"
    "scaledSum ?burst = 12"
    by (simp_all add: wheeled_def initial_def envAt_def throttledAfter_def scaledSum_def)
  let ?led = "wheels ?burst (handleWheel (envAt 1000) (-20) True [] initial)"
  note late = wheelUp_throttle [OF g(1,2,3,4), where c = True and burst = ?burst
      and e' = "envAt 1060" and u = ?led]
  note soon = wheelUp_throttle [OF g(1,6,7,4), where c = True and burst = "[]"
      and e' = "envAt 1060" and u = ?led]
  note fast = wheelUp_throttle [OF g(1,2,3,5), where c = True and burst = "[]"
      and e' = "envAt 1060" and u = ?led]
  note rest = wheelUp_throttle [OF g(8,9,10,4), where c = True and burst = ?burst
      and e' = "envAt 1060" and u = ?led]
  have p2: "pullDistance (handleWheel (envAt 1020) (-20) True [] wheeled) = 51
      \<and> lastWheelTime (handleWheel (envAt 1020) (-20) True [] wheeled) = 1020
      \<and> preventDefaultCalls (handleWheel (envAt 1020) (-20) True [] wheeled) = 1"
    using late [THEN conjunct2, THEN conjunct1] unfolding v by simp
  have p1: "accumulatedDelta (handleWheel (envAt 1005) (-20) True [] wheeled) = 6
      \<and> pullDistance (handleWheel (envAt 1005) (-20) True [] wheeled) = 45
      \<and> lastWheelTime (handleWheel (envAt 1005) (-20) True [] wheeled) = 1000"
    using soon [THEN conjunct1] unfolding v by (simp add: rearmInactivity_fields v)
  have p3: "pullDistance (handleWheel (envAt 1020) (-150) True [] wheeled) = 60
      \<and> isRefreshing (handleWheel (envAt 1020) (-150) True [] wheeled)"
    using fast [THEN conjunct2, THEN conjunct2, THEN conjunct1] unfolding v by simp
  have p4: "pullDistance (wheels ?burst wheeled) = 45
      \<and> accumulatedDelta (wheels ?burst wheeled) = 12"
    using late [THEN conjunct2, THEN conjunct2, THEN conjunct2, THEN conjunct1] v(15,16)
    unfolding v(1-14,17) by simp
  have p5: "pullDistance (handleWheel (envAt 1020) (-20) True [] (wheels ?burst wheeled)) = 63"
    using late [THEN conjunct2, THEN conjunct2, THEN conjunct2, THEN conjunct2, THEN conjunct1]
      v(15,16)
    unfolding v(1-14,17) by simp
  have p6: "pullDistance ?led = 6 \<and> accumulatedDelta ?led = 12"
    using rest [THEN conjunct2, THEN conjunct2, THEN conjunct2, THEN conjunct2, THEN conjunct2,
        THEN conjunct1] v(15,16)
    unfolding v(1-14,17) by simp
  have p7: "pullDistance (timerCallback (envAt 1060) Inactivity ?led) = 0
      \<and> accumulatedDelta (timerCallback (envAt 1060) Inactivity ?led) = 0"
    using rest [THEN conjunct2, THEN conjunct2, THEN conjunct2, THEN conjunct2, THEN conjunct2,
        THEN conjunct2] p6
    unfolding v by simp
  from g v p1 p2 p3 p4 p5 p6 p7 show ?thesis by simp
qed

subsection \<open>Pending timers\<close>



lemma filter_fresh:
  "list_all (\<lambda>t. fst t < (i::nat)) ts \<Longrightarrow> filter (\<lambda>t. fst t \<noteq> i) ts = ts"
  by (induction ts) auto



text \<open>Identifiers stay fresh along every trace from the initial state.\<close>

lemma timersFresh_setTimeout: "timersFresh s \<Longrightarrow> timersFresh (setTimeout e a d s)"
  by (auto simp: timersFresh_def setTimeout_def list_all_iff)

lemma timersFresh_clearTimeout: "timersFresh s \<Longrightarrow> timersFresh (clearTimeout i s)"
  by (auto simp: timersFresh_def clearTimeout_def list_all_iff)

lemma timersFresh_cong:
  "timers s' = timers s \<Longrightarrow> nextTimerId s' = nextTimerId s \<Longrightarrow> timersFresh s' = timersFresh s"
  by (simp add: timersFresh_def)

lemma timersFresh_executeRefresh: "timersFresh (executeRefresh e s) = timersFresh s"
  by (simp add: timersFresh_def executeRefresh_def onRefresh_def)

lemma timersFresh_handleStart: "timersFresh (handleStart e y t s) = timersFresh s"
  by (simp add: timersFresh_def handleStart_def)

lemma timersFresh_handleMove: "timersFresh (handleMove e y c s) = timersFresh s"
  by (simp add: timersFresh_def handleMove_def preventDefault_def Let_def)

lemma timersFresh_handleEnd: "timersFresh (handleEnd e s) = timersFresh s"
  by (simp add: timersFresh_def handleEnd_def onRefresh_def Let_def)

lemma timersFresh_rearm: "timersFresh s \<Longrightarrow> timersFresh (rearmInactivity e s)"
  by (auto simp: timersFresh_def rearmInactivity_def setTimeout_def clearTimeout_def Let_def
      list_all_iff split: option.splits)

lemma timersFresh_wheelUp: "timersFresh s \<Longrightarrow> timersFresh (wheelUp e d c s)"
  by (auto simp: timersFresh_def wheelUp_def executeRefresh_def onRefresh_def clearTimeout_def
      preventDefault_def Let_def list_all_iff split: option.splits)

lemma timersFresh_wheelDown: "timersFresh (wheelDown e d c s) = timersFresh s"
  by (simp add: timersFresh_def wheelDown_def preventDefault_def Let_def)

lemma timersFresh_handleWheel: "timersFresh s \<Longrightarrow> timersFresh (handleWheel e d c t s)"
  by (simp add: handleWheel_def Let_def timersFresh_rearm timersFresh_wheelUp timersFresh_wheelDown)
     (simp add: timersFresh_def)

lemma timersFresh_timerCallback: "timersFresh s \<Longrightarrow> timersFresh (timerCallback e a s)"
  by (cases a) (simp_all add: timersFresh_def executeRefresh_def onRefresh_def Let_def)

lemma timersFresh_fireTimer: "timersFresh s \<Longrightarrow> fireTimer e i s = Some s' \<Longrightarrow> timersFresh s'"
  by (auto simp: fireTimer_def timersFresh_timerCallback timersFresh_clearTimeout
      split: option.splits if_splits)

lemma timersFresh_settle: "timersFresh s \<Longrightarrow> settle e i s = Some s' \<Longrightarrow> timersFresh s'"
proof -
  assume a: "timersFresh s" "settle e i s = Some s'"
  let ?t = "s\<lparr> pendingRefreshes := take i (pendingRefreshes s) @ drop (Suc i) (pendingRefreshes s) \<rparr>"
  have t: "timersFresh ?t" using a(1) by (simp add: timersFresh_def)
  have "timersFresh (finallyBlock e k ?t)" for k
    by (cases k) (simp_all add: t timersFresh_setTimeout)
  with a(2) show ?thesis by (auto simp: settle_def split: if_splits)
qed

lemma timersFresh_isRefreshing: "timersFresh (s\<lparr> isRefreshing := b \<rparr>) = timersFresh s"
  by (simp add: timersFresh_def)

lemma timersFresh_watch: "timersFresh s \<Longrightarrow> timersFresh (watchIsLoading e b s)"
  by (simp add: watchIsLoading_def Let_def timersFresh_setTimeout timersFresh_isRefreshing)

lemma timersFresh_step:
  "timersFresh s \<Longrightarrow> step e ev s = Inr s' \<Longrightarrow> timersFresh s'"
proof (cases ev)
  case (TouchStart ts tg)
  assume "timersFresh s" "step e ev s = Inr s'"
  with TouchStart show ?thesis
    by (cases ts) (auto simp: handleTouchStart_def timersFresh_handleStart)
next
  case (TouchMove ts c)
  assume "timersFresh s" "step e ev s = Inr s'"
  with TouchMove show ?thesis
    by (cases ts) (auto simp: handleTouchMove_def timersFresh_handleMove)
next
  case TouchEnd
  assume "timersFresh s" "step e ev s = Inr s'"
  with TouchEnd show ?thesis by (auto simp: handleTouchEnd_def timersFresh_handleEnd)
next
  case (MouseDown y tg)
  assume "timersFresh s" "step e ev s = Inr s'"
  with MouseDown show ?thesis by (auto simp: handleMouseDown_def timersFresh_handleStart)
next
  case (MouseMove y c)
  assume "timersFresh s" "step e ev s = Inr s'"
  with MouseMove show ?thesis by (auto simp: handleMouseMove_def timersFresh_handleMove)
next
  case MouseUp
  assume "timersFresh s" "step e ev s = Inr s'"
  with MouseUp show ?thesis by (auto simp: handleMouseUp_def timersFresh_handleEnd)
next
  case MouseLeave
  assume "timersFresh s" "step e ev s = Inr s'"
  with MouseLeave show ?thesis by (auto simp: handleMouseLeave_def timersFresh_handleEnd)
next
  case (Wheel d c tg)
  assume "timersFresh s" "step e ev s = Inr s'"
  with Wheel show ?thesis by (auto simp: timersFresh_handleWheel)
next
  case (TimerFires i)
  assume "timersFresh s" "step e ev s = Inr s'"
  with TimerFires show ?thesis by (auto simp: timersFresh_fireTimer split: option.splits)
next
  case (RefreshSettles i)
  assume "timersFresh s" "step e ev s = Inr s'"
  with RefreshSettles show ?thesis by (auto simp: timersFresh_settle split: option.splits)
next
  case (LoadingChanges b)
  assume "timersFresh s" "step e ev s = Inr s'"
  with LoadingChanges show ?thesis by (auto simp: timersFresh_watch)
qed

lemma timersFresh_initial: "timersFresh initial"
  by (simp add: timersFresh_def initial_def)

lemma timersFresh_run:
  "timersFresh s \<Longrightarrow> run evs s = Inr s' \<Longrightarrow> timersFresh s'"
proof (induction evs arbitrary: s)
  case Nil
  then show ?case by simp
next
  case (Cons p evs)
  obtain e ev where p: "p = (e, ev)" by (cases p)
  from Cons.prems(2) obtain s1 where s1: "step e ev s = Inr s1" "run evs s1 = Inr s'"
    by (auto simp: p split: sum.splits)
  from Cons.IH [OF timersFresh_step [OF Cons.prems(1) s1(1)] s1(2)] show ?case .
qed

subsection \<open>C7: the inactivity timer of the wheel path\<close>








subsection \<open>Input while Refreshing\<close>












subsection \<open>C1: releasing a pull\<close>







subsection \<open>C2: the two entry points of a refresh\<close>




subsection \<open>C9: one refresh in flight\<close>

text \<open>
  C9 says that while a refresh started by the component is pending, no input event and no
  timer callback changes the distance or the state or invokes the callback again. The
  callback of the inactivity timer (lines 186-196) does not look at \<^verbatim>\<open>isRefreshing\<close>,
  and \<^verbatim>\<open>handleEnd\<close> does not cancel that timer. Four wheel events bring the distance
  to the threshold of 60; the pointer leaves the container 10 ms after the last one and the
  release starts a refresh; 40 ms later the inactivity timer fires, finds the distance at
  the threshold and starts a second refresh while the first is pending.
\<close>

theorem second_refresh_while_pending:
  "run [(envAt 1000, Wheel (-50) True []), (envAt 1020, Wheel (-50) True []),
        (envAt 1040, Wheel (-50) True []), (envAt 1060, Wheel (-50) True []),
        (envAt 1070, MouseLeave)] initial
     = Inr \<lparr> pullDistance = 60, isRefreshing = True, isPulling = False, startY = 0,
            isDragging = False, lastWheelTime = 1060, accumulatedDelta = 0,
            lastWheelEventTime = 1060, inactivityTimer = Some 4,
            timers = [(4, 1110, Inactivity)], nextTimerId = 5,
            pendingRefreshes = [FromHandleEnd], refreshCalls = 1, preventDefaultCalls = 3 \<rparr>
   \<and> run [(envAt 1000, Wheel (-50) True []), (envAt 1020, Wheel (-50) True []),
          (envAt 1040, Wheel (-50) True []), (envAt 1060, Wheel (-50) True []),
          (envAt 1070, MouseLeave), (envAt 1110, TimerFires 4)] initial
     = Inr \<lparr> pullDistance = 60, isRefreshing = True, isPulling = False, startY = 0,
            isDragging = False, lastWheelTime = 1060, accumulatedDelta = 0,
            lastWheelEventTime = 1060, inactivityTimer = Some 4,
            timers = [], nextTimerId = 5,
            pendingRefreshes = [FromHandleEnd, FromExecuteRefresh], refreshCalls = 2,
            preventDefaultCalls = 3 \<rparr>"
  by (simp add: envAt_def initial_def handleWheel_def rearmInactivity_def wheelUp_def
      setTimeout_def clearTimeout_def handleMouseLeave_def handleEnd_def onRefresh_def
      fireTimer_def executeRefresh_def preventDefault_def Let_def)

end
